theory Spec2Isabelle
  imports Complex_Main "HOL-Library.Word"
begin

section \<open>The sunrise alarm sketch (arduino\_code.ino)\<close>

text \<open>
  The sketch is one polling loop over a handful of global variables. The model keeps the
  globals in a record, passes it through every function, and records what the sketch sends
  to its three output devices (the RGB LED, the LCD and the serial port) in the same record.
  An out-of-range read of the \<open>planets\<close> array and a division by zero are results of
  their own, so that a theorem that a function returns a state also says that neither happened.
\<close>

subsection \<open>Static data\<close>

record PlanetColor =
  r :: int
  g :: int
  b :: int
  name :: string

definition planets :: "PlanetColor list" where
  "planets =
     [\<lparr>r = 230, g = 255, b = 0, name = ''Earth''\<rparr>,
      \<lparr>r = 100, g = 150, b = 255, name = ''Moon''\<rparr>,
      \<lparr>r = 0, g = 0, b = 255, name = ''Mars''\<rparr>]"

datatype fault = IndexOutOfRange | DivisionByZero

text \<open>\<open>planets[i]\<close>: the array has three entries; any other index is a fault.\<close>

definition planet_at :: "int \<Rightarrow> fault + PlanetColor" where
  "planet_at i = (if 0 \<le> i \<and> i < 3 then Inr (planets ! nat i) else Inl IndexOutOfRange)"

subsection \<open>Output devices and program state\<close>

text \<open>
  What \<open>Serial.print\<close>/\<open>println\<close> send, one constructor for each group of prints of the sketch:
  \<open>SystemReady\<close> "System Ready", \<open>UseArrows\<close> "Use UP/DOWN arrows",
  \<open>Button c\<close> "Button: c", \<open>PlanetNow i\<close> "-> Planet: i",
  \<open>SunriseStarted n\<close> "Sunrise started on n", \<open>TargetRGB\<close> "Target RGB: r, g, b",
  \<open>DurationMs d\<close> "Duration: d ms", \<open>InvalidFormat\<close> "Invalid SUNRISE command format",
  \<open>SunriseComplete\<close> "Sunrise complete!".
\<close>

datatype serial_msg =
    SystemReady
  | UseArrows
  | Button "32 word"
  | PlanetNow int
  | SunriseStarted string
  | TargetRGB int int int
  | DurationMs "32 word"
  | InvalidFormat
  | SunriseComplete

text \<open>
  The globals of the sketch, followed by the devices. An \<open>unsigned long\<close> is a 32-bit word,
  whose arithmetic wraps. An \<open>int\<close> is an \<open>int\<close>: the sketch only moves the selection by one
  around 0, 1, 2 and copies intensities of the table, so no \<open>int\<close> of a well-formed state
  (below) comes near the limits of 16 bits. The devices: every triple written by \<open>setColor\<close> in order, the two rows of the LCD,
  the lines sent to the serial port, and the command the IR receiver has decoded and not yet
  released by \<open>resume\<close>.
\<close>

record state =
  currentPlanet :: int
  sunriseActive :: bool
  sunriseStartTime :: "32 word"
  targetR :: int
  targetG :: int
  targetB :: int
  sunriseDuration :: "32 word"
  led_writes :: "(int \<times> int \<times> int) list"
  lcd :: "string \<times> string"
  serial_log :: "serial_msg list"
  ir_pending :: "32 word option"

definition setColor :: "int \<Rightarrow> int \<Rightarrow> int \<Rightarrow> state \<Rightarrow> state" where
  "setColor red green blue st = st\<lparr>led_writes := led_writes st @ [(red, green, blue)]\<rparr>"

text \<open>The two overloads of \<open>displayPlanet\<close>: one line of text, or two.\<close>

definition displayPlanet1 :: "string \<Rightarrow> int \<Rightarrow> int \<Rightarrow> int \<Rightarrow> state \<Rightarrow> state" where
  "displayPlanet1 line1 red green blue st = setColor red green blue (st\<lparr>lcd := (line1, [])\<rparr>)"

definition displayPlanet2 :: "string \<Rightarrow> string \<Rightarrow> int \<Rightarrow> int \<Rightarrow> int \<Rightarrow> state \<Rightarrow> state" where
  "displayPlanet2 line1 line2 red green blue st =
     setColor red green blue (st\<lparr>lcd := (line1, line2)\<rparr>)"

definition showPlanet :: "int \<Rightarrow> state \<Rightarrow> state" where
  "showPlanet planet st =
     (let st1 = st\<lparr>sunriseActive := False\<rparr> in
      if planet = 0 then
        displayPlanet1 ''Earth: Home'' (r (planets ! 0)) (g (planets ! 0)) (b (planets ! 0)) st1
      else if planet = 1 then
        displayPlanet2 ''Moon: Earth's'' ''Lil sis''
          (r (planets ! 1)) (g (planets ! 1)) (b (planets ! 1)) st1
      else if planet = 2 then
        displayPlanet2 ''Mars: Earth's'' ''Lil bro''
          (r (planets ! 2)) (g (planets ! 2)) (b (planets ! 2)) st1
      else st1)"

subsection \<open>The Arduino \<open>String\<close> operations the sketch calls\<close>

text \<open>
  \<open>trim\<close>, \<open>startsWith\<close>, \<open>indexOf\<close>, \<open>substring\<close> and \<open>toInt\<close> are methods of the \<open>String\<close>
  class of the Arduino core, each modelled by its documented behaviour on the characters of
  the string.
\<close>

definition isspace :: "char \<Rightarrow> bool" where
  "isspace c = (c \<in> {CHR '' '', CHR 0x09, CHR 0x0A, CHR 0x0B, CHR 0x0C, CHR 0x0D})"

definition isdigit :: "char \<Rightarrow> bool" where
  "isdigit c = (48 \<le> (of_char c :: nat) \<and> (of_char c :: nat) \<le> 57)"

definition trim :: "string \<Rightarrow> string" where
  "trim s = rev (dropWhile isspace (rev (dropWhile isspace s)))"

definition startsWith :: "string \<Rightarrow> string \<Rightarrow> bool" where
  "startsWith s p = (take (length p) s = p)"

text \<open>\<open>indexOf\<close>: the position of the first occurrence, \<open>-1\<close> when there is none.\<close>

definition indexOf :: "string \<Rightarrow> char \<Rightarrow> int" where
  "indexOf s c = (if c \<in> set s then int (length (takeWhile (\<lambda>x. x \<noteq> c) s)) else - 1)"

definition substring :: "string \<Rightarrow> int \<Rightarrow> string" where
  "substring s from = (if from < 0 then s else drop (nat from) s)"

fun atol_digits :: "32 word \<Rightarrow> string \<Rightarrow> 32 word" where
  "atol_digits acc [] = acc"
| "atol_digits acc (c # cs) =
     (if isdigit c then atol_digits (acc * 10 + of_nat (of_char c - 48)) cs else acc)"

text \<open>
  Modelled from the spec: \<open>String::toInt\<close> belongs to the Arduino core, which is not under
  src/. The spec has the duration token be a decimal integer and the conversion return 0
  silently when it fails. The model is the core's documented conversion (C's \<open>atol\<close>): blanks
  are skipped, a sign is read, then the leading run of decimal digits; with no such run the
  result is 0. The result is a \<open>long\<close>, here its 32-bit two's complement pattern.
\<close>

definition toInt :: "string \<Rightarrow> 32 word" where
  "toInt s =
     (case dropWhile isspace s of
        [] \<Rightarrow> 0
      | c # cs \<Rightarrow>
          if c = CHR ''-'' then - atol_digits 0 cs
          else if c = CHR ''+'' then atol_digits 0 cs
          else atol_digits 0 (c # cs))"


subsection \<open>Single-precision arithmetic\<close>

text \<open>
  \<open>float\<close> is IEEE 754 binary32: 24 significant bits, results rounded to the nearest
  representable value, ties to the even significand. A value is modelled by the rational it
  denotes. With times below \<open>2^32\<close> and the intensities of the table, every magnitude the
  sketch computes is zero or lies between \<open>2^-33\<close> and \<open>2^33\<close>, far from the limits of the
  exponent, so the model leaves the exponent unbounded. A division by zero is a fault.
\<close>

text \<open>The number of binary digits of a positive integer.\<close>

function bit_length :: "int \<Rightarrow> int" where
  "bit_length n = (if n \<le> 0 then 0 else 1 + bit_length (n div 2))"
  by pat_completeness auto
termination
  by (relation "measure nat") auto

declare bit_length.simps [simp del]

definition pow2 :: "int \<Rightarrow> rat" where
  "pow2 k = (if 0 \<le> k then 2 ^ nat k else 1 / 2 ^ nat (- k))"

text \<open>For \<open>x > 0\<close>, the exponent \<open>k\<close> with \<open>2^k \<le> x < 2^(k+1)\<close>.\<close>

definition binade :: "rat \<Rightarrow> int" where
  "binade x =
     (let (p, q) = quotient_of x;
          d = bit_length p - bit_length q
      in if pow2 d \<le> x then d else d - 1)"

definition round_even :: "rat \<Rightarrow> int" where
  "round_even x =
     (let f = \<lfloor>x\<rfloor>; d = x - of_int f
      in if d < 1 / 2 then f else if 1 / 2 < d then f + 1 else if even f then f else f + 1)"

definition round24 :: "rat \<Rightarrow> rat" where
  "round24 x =
     (if x = 0 then 0
      else let s = pow2 (binade \<bar>x\<bar> - 23)
           in sgn x * of_int (round_even (\<bar>x\<bar> / s)) * s)"

definition float_of_ulong :: "32 word \<Rightarrow> rat" where
  "float_of_ulong w = round24 (of_int (uint w))"

definition float_of_int :: "int \<Rightarrow> rat" where
  "float_of_int i = round24 (of_int i)"

definition fdiv :: "rat \<Rightarrow> rat \<Rightarrow> fault + rat" where
  "fdiv x y = (if y = 0 then Inl DivisionByZero else Inr (round24 (x / y)))"

definition fmul :: "rat \<Rightarrow> rat \<Rightarrow> rat" where
  "fmul x y = round24 (x * y)"

text \<open>
  \<open>(int)\<close> of a float: the fraction is dropped (truncation toward zero). The values converted
  lie between 0 and the target, within the range of \<open>int\<close>.
\<close>

definition int_of_float :: "rat \<Rightarrow> int" where
  "int_of_float x = (if 0 \<le> x then \<lfloor>x\<rfloor> else \<lceil>x\<rceil>)"

subsection \<open>The sunrise animation\<close>

text \<open>\<open>now\<close> is what \<open>millis()\<close> returns inside the call.\<close>

definition parseAndStartSunrise :: "string \<Rightarrow> 32 word \<Rightarrow> state \<Rightarrow> fault + state" where
  "parseAndStartSunrise command now st =
     (let firstSpace = indexOf command CHR '' '' in
      if 0 < firstSpace then
        (case planet_at (currentPlanet st) of
           Inl f \<Rightarrow> Inl f
         | Inr p \<Rightarrow>
             let d = toInt (substring command (firstSpace + 1)) in
             Inr (setColor 0 0 0
                   (st\<lparr>sunriseDuration := d,
                       targetR := r p, targetG := g p, targetB := b p,
                       sunriseActive := True,
                       sunriseStartTime := now\<rparr>)
                  \<lparr>lcd := (''Sunrise: '' @ name p, ''Waking up...''),
                   serial_log := serial_log st @
                     [SunriseStarted (name p), TargetRGB (r p) (g p) (b p), DurationMs d]\<rparr>))
      else Inr (st\<lparr>serial_log := serial_log st @ [InvalidFormat]\<rparr>))"

text \<open>One channel of the ramp: \<open>(int)(target * progress)\<close>.\<close>

definition channel :: "int \<Rightarrow> rat \<Rightarrow> int" where
  "channel target progress = int_of_float (fmul (float_of_int target) progress)"

definition updateSunrise :: "32 word \<Rightarrow> state \<Rightarrow> fault + state" where
  "updateSunrise now st =
     (let elapsedTime = now - sunriseStartTime st in
      if sunriseDuration st \<le> elapsedTime then
        (case planet_at (currentPlanet st) of
           Inl f \<Rightarrow> Inl f
         | Inr p \<Rightarrow>
             Inr (setColor (targetR st) (targetG st) (targetB st)
                   (st\<lparr>sunriseActive := False\<rparr>)
                  \<lparr>lcd := (''Good Morning!'', name p),
                   serial_log := serial_log st @ [SunriseComplete]\<rparr>))
      else
        (case fdiv (float_of_ulong elapsedTime) (float_of_ulong (sunriseDuration st)) of
           Inl f \<Rightarrow> Inl f
         | Inr progress \<Rightarrow>
             Inr (setColor (channel (targetR st) progress) (channel (targetG st) progress)
                    (channel (targetB st) progress) st)))"

subsection \<open>The event loop\<close>

text \<open>
  What one iteration of \<open>loop\<close> reads from outside: the line \<open>readStringUntil\<close> returns when
  serial data is available, and the two readings of \<open>millis()\<close>, in \<open>parseAndStartSunrise\<close>
  and in \<open>updateSunrise\<close>.
\<close>

record env =
  rx_line :: "string option"
  t_arm :: "32 word"
  t_tick :: "32 word"

definition loop_serial :: "env \<Rightarrow> state \<Rightarrow> fault + state" where
  "loop_serial e st =
     (case rx_line e of
        None \<Rightarrow> Inr st
      | Some raw \<Rightarrow>
          let command = trim raw in
          if startsWith command ''SUNRISE'' then parseAndStartSunrise command (t_arm e) st
          else Inr st)"

definition loop_sunrise :: "env \<Rightarrow> state \<Rightarrow> fault + state" where
  "loop_sunrise e st = (if sunriseActive st then updateSunrise (t_tick e) st else Inr st)"

text \<open>The body of the IR branch for a decoded \<open>command\<close>, up to \<open>IrReceiver.resume()\<close>.\<close>

definition ir_event :: "32 word \<Rightarrow> state \<Rightarrow> state" where
  "ir_event command st =
     (let st1 = st\<lparr>serial_log := serial_log st @ [Button command]\<rparr>;
          st2 =
            (if command = 9 then
               let n = currentPlanet st1 + 1;
                   n' = (if 2 < n then 0 else n);
                   st' = showPlanet n' (st1\<lparr>currentPlanet := n'\<rparr>)
               in st'\<lparr>serial_log := serial_log st' @ [PlanetNow n']\<rparr>
             else if command = 7 then
               let n = currentPlanet st1 - 1;
                   n' = (if n < 0 then 2 else n);
                   st' = showPlanet n' (st1\<lparr>currentPlanet := n'\<rparr>)
               in st'\<lparr>serial_log := serial_log st' @ [PlanetNow n']\<rparr>
             else st1)
      in st2\<lparr>ir_pending := None\<rparr>)"

definition loop_ir :: "state \<Rightarrow> state" where
  "loop_ir st =
     (if \<not> sunriseActive st then
        (case ir_pending st of None \<Rightarrow> st | Some command \<Rightarrow> ir_event command st)
      else st)"

definition loop :: "env \<Rightarrow> state \<Rightarrow> fault + state" where
  "loop e st =
     (case loop_serial e st of
        Inl f \<Rightarrow> Inl f
      | Inr st1 \<Rightarrow>
          (case loop_sunrise e st1 of
             Inl f \<Rightarrow> Inl f
           | Inr st2 \<Rightarrow> Inr (loop_ir st2)))"

text \<open>The globals as initialised, and the state \<open>setup\<close> leaves.\<close>

definition boot :: state where
  "boot =
     \<lparr>currentPlanet = 0, sunriseActive = False, sunriseStartTime = 0,
      targetR = 0, targetG = 0, targetB = 0, sunriseDuration = 0,
      led_writes = [], lcd = ([], []), serial_log = [], ir_pending = None\<rparr>"

definition setup_sketch :: state where
  "setup_sketch =
     (let st1 = setColor 0 0 0 (boot\<lparr>lcd := (''Ready!'', [])\<rparr>);
          st2 = st1\<lparr>serial_log := serial_log st1 @ [SystemReady, UseArrows]\<rparr>
      in showPlanet 0 st2)"

subsection \<open>Well-formed states\<close>

text \<open>
  The states the sketch can be in: the selection is an index of \<open>planets\<close> and the target
  channels are intensities between 0 and 255.
\<close>

definition well_formed :: "state \<Rightarrow> bool" where
  "well_formed st =
     (0 \<le> currentPlanet st \<and> currentPlanet st < 3 \<and>
      0 \<le> targetR st \<and> targetR st \<le> 255 \<and>
      0 \<le> targetG st \<and> targetG st \<le> 255 \<and>
      0 \<le> targetB st \<and> targetB st \<le> 255)"

subsection \<open>The words of the specification\<close>

text \<open>
  The specification writes the value of a channel at elapsed time \<open>e\<close> of a ramp of length \<open>D\<close>
  as \<open>floor (target * e / D)\<close>. This definition follows those words, not the sketch.
\<close>

definition spec_channel :: "int \<Rightarrow> int \<Rightarrow> int \<Rightarrow> int" where
  "spec_channel target e D = (target * e) div D"


subsection \<open>Some states of a run\<close>

text \<open>
  \<open>earth_armed\<close>: after \<open>setup\<close>, the line "SUNRISE 1000" arrives at time 0.
  \<open>earth_half\<close>: the tick at time 500 has run.
\<close>

definition earth_armed :: state where
  "earth_armed =
     \<lparr>currentPlanet = 0, sunriseActive = True, sunriseStartTime = 0,
      targetR = 230, targetG = 255, targetB = 0, sunriseDuration = 1000,
      led_writes = [(0, 0, 0), (230, 255, 0), (0, 0, 0)],
      lcd = (''Sunrise: Earth'', ''Waking up...''),
      serial_log = [SystemReady, UseArrows, SunriseStarted ''Earth'', TargetRGB 230 255 0,
                    DurationMs 1000],
      ir_pending = None\<rparr>"

definition earth_half :: state where
  "earth_half = earth_armed\<lparr>led_writes := led_writes earth_armed @ [(115, 127, 0)]\<rparr>"

text \<open>
  \<open>moon_selected\<close>: after \<open>setup\<close>, the UP button (code 9) has been handled.
  \<open>moon_armed\<close>: then the line "SUNRISE 100" arrives at time 0.
\<close>

definition moon_selected :: state where
  "moon_selected =
     \<lparr>currentPlanet = 1, sunriseActive = False, sunriseStartTime = 0,
      targetR = 0, targetG = 0, targetB = 0, sunriseDuration = 0,
      led_writes = [(0, 0, 0), (230, 255, 0), (100, 150, 255)],
      lcd = (''Moon: Earth's'', ''Lil sis''),
      serial_log = [SystemReady, UseArrows, Button 9, PlanetNow 1],
      ir_pending = None\<rparr>"

definition moon_armed :: state where
  "moon_armed =
     \<lparr>currentPlanet = 1, sunriseActive = True, sunriseStartTime = 0,
      targetR = 100, targetG = 150, targetB = 255, sunriseDuration = 100,
      led_writes = [(0, 0, 0), (230, 255, 0), (100, 150, 255), (0, 0, 0)],
      lcd = (''Sunrise: Moon'', ''Waking up...''),
      serial_log = [SystemReady, UseArrows, Button 9, PlanetNow 1, SunriseStarted ''Moon'',
                    TargetRGB 100 150 255, DurationMs 100],
      ir_pending = None\<rparr>"

text \<open>
  \<open>moon_after_completion\<close>: from \<open>earth_half\<close> with the UP button waiting in the IR receiver,
  one iteration of the loop at time 1000.
\<close>

definition moon_after_completion :: state where
  "moon_after_completion =
     \<lparr>currentPlanet = 1, sunriseActive = False, sunriseStartTime = 0,
      targetR = 230, targetG = 255, targetB = 0, sunriseDuration = 1000,
      led_writes = [(0, 0, 0), (230, 255, 0), (0, 0, 0), (115, 127, 0), (230, 255, 0),
                    (100, 150, 255)],
      lcd = (''Moon: Earth's'', ''Lil sis''),
      serial_log = [SystemReady, UseArrows, SunriseStarted ''Earth'', TargetRGB 230 255 0,
                    DurationMs 1000, SunriseComplete, Button 9, PlanetNow 1],
      ir_pending = None\<rparr>"

section \<open>Properties\<close>

subsection \<open>Basic facts\<close>

lemma planet_at_valid: "0 \<le> i \<Longrightarrow> i < 3 \<Longrightarrow> planet_at i = Inr (planets ! nat i)"
  by (simp add: planet_at_def)

lemma indexOf_absent: "c \<notin> set s \<Longrightarrow> indexOf s c = - 1"
  by (simp add: indexOf_def)

subsection \<open>A sample run\<close>

lemma indexOf_SUNRISE_1000: "indexOf ''SUNRISE 1000'' CHR '' '' = 7"
  by (simp add: indexOf_def)

lemma toInt_1000: "toInt ''1000'' = 1000"
  by (simp add: toInt_def isspace_def isdigit_def)

lemma earth_armed_reached:
  "parseAndStartSunrise ''SUNRISE 1000'' 0 setup_sketch = Inr earth_armed"
  by (simp add: parseAndStartSunrise_def indexOf_SUNRISE_1000 substring_def toInt_1000
      setup_sketch_def boot_def showPlanet_def displayPlanet1_def setColor_def planet_at_def
      planets_def earth_armed_def)

lemma progress_half: "fdiv (float_of_ulong 500) (float_of_ulong 1000) = Inr (1 / 2)"
  by code_simp

lemma channels_half:
  "channel 230 (1 / 2) = 115" "channel 255 (1 / 2) = 127" "channel 0 (1 / 2) = 0"
  by code_simp+

lemma earth_half_reached: "updateSunrise 500 earth_armed = Inr earth_half"
  by (simp add: updateSunrise_def earth_armed_def earth_half_def progress_half channels_half
      setColor_def)

lemma moon_selected_reached:
  "loop \<lparr>rx_line = None, t_arm = 0, t_tick = 0\<rparr> (setup_sketch\<lparr>ir_pending := Some 9\<rparr>)
     = Inr moon_selected"
  by (simp add: loop_def loop_serial_def loop_sunrise_def loop_ir_def ir_event_def
      setup_sketch_def boot_def showPlanet_def displayPlanet1_def displayPlanet2_def setColor_def
      planets_def moon_selected_def)

lemma indexOf_SUNRISE_100: "indexOf ''SUNRISE 100'' CHR '' '' = 7"
  by (simp add: indexOf_def)

lemma toInt_100: "toInt ''100'' = 100"
  by (simp add: toInt_def isspace_def isdigit_def)

lemma moon_armed_reached:
  "parseAndStartSunrise ''SUNRISE 100'' 0 moon_selected = Inr moon_armed"
  by (simp add: parseAndStartSunrise_def indexOf_SUNRISE_100 substring_def toInt_100
      moon_selected_def setColor_def planet_at_def planets_def moon_armed_def)

lemma progress_53: "fdiv (float_of_ulong 53) (float_of_ulong 100) = Inr (2222981 / 4194304)"
  by code_simp

lemma channels_53:
  "channel 100 (2222981 / 4194304) = 52" "channel 150 (2222981 / 4194304) = 79"
  "channel 255 (2222981 / 4194304) = 135"
  by code_simp+

subsection \<open>Rounding to 24 significant bits\<close>

lemma pow2_powi: "pow2 k = power_int 2 k"
  by (simp add: pow2_def power_int_def power_one_over inverse_eq_divide)

lemma pow2_pos: "0 < pow2 k"
  by (simp add: pow2_def)

lemma pow2_add: "pow2 (j + k) = pow2 j * pow2 k"
  by (simp add: pow2_powi power_int_add)

lemma pow2_nat_diff: "pow2 (int m - int n) = 2 ^ m / 2 ^ n"
  by (simp add: pow2_powi power_int_diff)

lemma pow2_mono: "j \<le> k \<Longrightarrow> pow2 j \<le> pow2 k"
  by (simp add: pow2_powi power_int_increasing)

lemma bit_length_bounds:
  "0 < n \<Longrightarrow> \<exists>m. bit_length n = int (Suc m) \<and> 2 ^ m \<le> n \<and> n < 2 ^ Suc m"
proof (induction n rule: bit_length.induct)
  case (1 n)
  show ?case
  proof (cases "n div 2 = 0")
    case True
    with "1.prems" have "n = 1" by presburger
    then have "bit_length n = int (Suc 0) \<and> 2 ^ 0 \<le> n \<and> n < 2 ^ Suc 0"
      by (simp add: bit_length.simps [of 1] bit_length.simps [of 0])
    then show ?thesis by blast
  next
    case False
    with "1.prems" have pos: "0 < n div 2" by presburger
    have "\<not> n \<le> 0" using "1.prems" by simp
    from "1.IH" [OF this pos] obtain m where
      m: "bit_length (n div 2) = int (Suc m)" "2 ^ m \<le> n div 2" "n div 2 < 2 ^ Suc m"
      by blast
    have "bit_length n = 1 + bit_length (n div 2)"
      using "1.prems" by (subst bit_length.simps) simp
    then have a: "bit_length n = int (Suc (Suc m))" using m(1) by simp
    have b: "2 ^ Suc m \<le> n" using m(2) by (simp; presburger)
    have c: "n < 2 ^ Suc (Suc m)" using m(3) by (simp; presburger)
    from a b c show ?thesis by blast
  qed
qed

lemma quotient_of_pos:
  assumes "0 < x" and "quotient_of x = (p, q)"
  shows "0 < p" "0 < q" "x = of_int p / of_int q"
proof -
  show q: "0 < q" using assms(2) by (rule quotient_of_denom_pos)
  show x: "x = of_int p / of_int q" using assms(2) by (rule quotient_of_div)
  show "0 < p" using assms(1) q x by (simp add: zero_less_divide_iff)
qed

lemma binade_bounds:
  assumes "0 < x"
  shows "pow2 (binade x) \<le> x" and "x < pow2 (binade x + 1)"
proof -
  obtain p q where pq: "quotient_of x = (p, q)" by (cases "quotient_of x")
  from quotient_of_pos [OF assms pq] have p: "0 < p" and q: "0 < q"
    and x: "x = of_int p / of_int q" by simp_all
  from bit_length_bounds [OF p] obtain m where
    m: "bit_length p = int (Suc m)" "2 ^ m \<le> p" "p < 2 ^ Suc m" by blast
  from bit_length_bounds [OF q] obtain n where
    n: "bit_length q = int (Suc n)" "2 ^ n \<le> q" "q < 2 ^ Suc n" by blast
  let ?d = "int m - int n"
  have d: "bit_length p - bit_length q = ?d" using m(1) n(1) by simp
  have bin: "binade x = (if pow2 ?d \<le> x then ?d else ?d - 1)"
    by (simp add: binade_def pq d)
  have pm: "(2::rat) ^ m \<le> of_int p" using m(2) by (metis of_int_le_iff of_int_numeral of_int_power)
  have pM: "of_int p < (2::rat) ^ Suc m" using m(3) by (metis of_int_less_iff of_int_numeral of_int_power)
  have qn: "(2::rat) ^ n \<le> of_int q" using n(2) by (metis of_int_le_iff of_int_numeral of_int_power)
  have qN: "of_int q < (2::rat) ^ Suc n" using n(3) by (metis of_int_less_iff of_int_numeral of_int_power)
  have qpos: "(0::rat) < of_int q" using q by simp
  have low: "pow2 (?d - 1) \<le> x"
  proof -
    have "pow2 (?d - 1) = 2 ^ m / 2 ^ Suc n"
      using pow2_nat_diff [of m "Suc n"] by (simp add: algebra_simps)
    also have "\<dots> \<le> of_int p / 2 ^ Suc n" using pm by (simp add: divide_right_mono)
    also have "\<dots> \<le> of_int p / of_int q"
      using qN qpos p by (intro divide_left_mono) (simp_all add: less_imp_le)
    finally show ?thesis using x by simp
  qed
  have high: "x < pow2 (?d + 1)"
  proof -
    have "x = of_int p / of_int q" by (rule x)
    also have "\<dots> < 2 ^ Suc m / of_int q" using pM qpos by (simp add: divide_strict_right_mono)
    also have "\<dots> \<le> 2 ^ Suc m / 2 ^ n"
      using qn qpos by (intro divide_left_mono) simp_all
    also have "\<dots> = pow2 (?d + 1)"
      using pow2_nat_diff [of "Suc m" n] by (simp add: algebra_simps)
    finally show ?thesis .
  qed
  show "pow2 (binade x) \<le> x" using low by (simp add: bin)
  show "x < pow2 (binade x + 1)" using high by (simp add: bin not_le)
qed

lemma round_even_error: "\<bar>of_int (round_even x) - x\<bar> \<le> 1 / 2"
proof -
  have "of_int \<lfloor>x\<rfloor> \<le> x" "x < of_int \<lfloor>x\<rfloor> + 1" by linarith+
  then show ?thesis by (simp add: round_even_def Let_def; linarith)
qed

lemma round_even_of_int: "round_even (of_int n) = n"
  by (simp add: round_even_def)

lemma round24_error:
  assumes "0 < x"
  shows "\<bar>round24 x - x\<bar> \<le> x / 2 ^ 24"
proof -
  let ?s = "pow2 (binade x - 23)"
  have s: "0 < ?s" by (rule pow2_pos)
  have r: "round24 x = of_int (round_even (x / ?s)) * ?s"
    using assms by (simp add: round24_def Let_def)
  have "round24 x - x = (of_int (round_even (x / ?s)) - x / ?s) * ?s"
    using s by (simp add: r algebra_simps)
  then have "\<bar>round24 x - x\<bar> = \<bar>of_int (round_even (x / ?s)) - x / ?s\<bar> * ?s"
    using s by (simp add: abs_mult)
  also have "\<dots> \<le> 1 / 2 * ?s"
    using round_even_error [of "x / ?s"] s by (intro mult_right_mono) simp_all
  also have "\<dots> = pow2 (binade x) / 2 ^ 24"
    using pow2_add [of "binade x" "- 23"] by (simp add: pow2_def)
  also have "\<dots> \<le> x / 2 ^ 24"
    using binade_bounds(1) [OF assms] by (simp add: divide_right_mono)
  finally show ?thesis .
qed

lemma round24_zero: "round24 0 = 0"
  by (simp add: round24_def)

lemma round24_rel:
  assumes "0 \<le> x"
  shows "x * (1 - 1 / 2 ^ 24) \<le> round24 x" and "round24 x \<le> x * (1 + 1 / 2 ^ 24)"
proof -
  have "\<bar>round24 x - x\<bar> \<le> x / 2 ^ 24"
  proof (cases "x = 0")
    case True
    then show ?thesis by (simp add: round24_zero)
  next
    case False
    with assms have "0 < x" by simp
    then show ?thesis by (rule round24_error)
  qed
  then have e1: "round24 x - x \<le> x / 2 ^ 24" and e2: "- (round24 x - x) \<le> x / 2 ^ 24"
    by (rule abs_le_D1, rule abs_le_D2)
  show "x * (1 - 1 / 2 ^ 24) \<le> round24 x"
    using e2 by (simp add: algebra_simps)
  show "round24 x \<le> x * (1 + 1 / 2 ^ 24)"
    using e1 by (simp add: algebra_simps)
qed

lemma round24_pos: "0 < x \<Longrightarrow> 0 < round24 x"
proof -
  assume x: "0 < x"
  have "0 < x * (1 - 1 / 2 ^ 24)" using x by simp
  also have "\<dots> \<le> round24 x" using x by (intro round24_rel(1)) simp
  finally show ?thesis .
qed

lemma round24_nonneg: "0 \<le> x \<Longrightarrow> 0 \<le> round24 x"
  using round24_pos [of x] by (cases "x = 0") (simp_all add: round24_zero)

lemma ramp_upper:
  fixes T E Dd :: rat
  assumes T: "0 \<le> T" and E: "0 \<le> E" and Dd: "0 < Dd"
  shows "round24 (round24 T * round24 (round24 E / round24 Dd)) \<le> T * E / Dd * (1 + 1 / 2 ^ 21)"
proof -
  define a :: rat where "a = 1 - 1 / 2 ^ 24"
  define c :: rat where "c = 1 + 1 / 2 ^ 24"
  have a: "0 < a" and c: "0 < c" by (simp_all add: a_def c_def)
  have num: "c * c * c * c / a \<le> 1 + 1 / 2 ^ 21" by (simp add: a_def c_def)
  let ?fe = "round24 E" and ?fD = "round24 Dd" and ?ft = "round24 T"
  let ?p = "round24 (?fe / ?fD)"
  have fe: "?fe \<le> E * c" "0 \<le> ?fe"
    using round24_rel(2) [OF E] round24_nonneg [OF E] by (simp_all add: c_def)
  have fD: "Dd * a \<le> ?fD" "0 < ?fD"
    using round24_rel(1) [of Dd] round24_pos [OF Dd] Dd by (simp_all add: a_def)
  have q: "?fe / ?fD \<le> (E * c) / (Dd * a)"
    using fe fD Dd a by (intro frac_le) simp_all
  have q0: "0 \<le> ?fe / ?fD" using fe(2) fD(2) by simp
  have p: "?p \<le> ?fe / ?fD * c" "0 \<le> ?p"
    using round24_rel(2) [OF q0] round24_nonneg [OF q0] by (simp_all add: c_def)
  have "?fe / ?fD * c \<le> (E * c) / (Dd * a) * c"
    using q c by (intro mult_right_mono) simp_all
  with p(1) have p': "?p \<le> (E * c) / (Dd * a) * c" by (rule order_trans)
  have ft: "?ft \<le> T * c" "0 \<le> ?ft"
    using round24_rel(2) [OF T] round24_nonneg [OF T] by (simp_all add: c_def)
  have y: "?ft * ?p \<le> (T * c) * ((E * c) / (Dd * a) * c)"
    using ft p' p(2) T c by (intro mult_mono) simp_all
  have y0: "0 \<le> ?ft * ?p" using ft(2) p(2) by simp
  have "round24 (?ft * ?p) \<le> ?ft * ?p * c"
    using round24_rel(2) [OF y0] by (simp add: c_def)
  also have "\<dots> \<le> (T * c) * ((E * c) / (Dd * a) * c) * c"
    using y c by (intro mult_right_mono) simp_all
  also have "\<dots> = T * E / Dd * (c * c * c * c / a)"
    using a Dd by (simp add: field_simps)
  also have "\<dots> \<le> T * E / Dd * (1 + 1 / 2 ^ 21)"
    using num T E Dd by (intro mult_left_mono) simp_all
  finally show ?thesis .
qed

lemma ramp_lower:
  fixes T E Dd :: rat
  assumes T: "0 \<le> T" and E: "0 \<le> E" and Dd: "0 < Dd"
  shows "T * E / Dd * (1 - 1 / 2 ^ 21) \<le> round24 (round24 T * round24 (round24 E / round24 Dd))"
proof -
  define a :: rat where "a = 1 - 1 / 2 ^ 24"
  define c :: rat where "c = 1 + 1 / 2 ^ 24"
  have a: "0 < a" and c: "0 < c" by (simp_all add: a_def c_def)
  have num: "1 - 1 / 2 ^ 21 \<le> a * a * a * a / c" by (simp add: a_def c_def)
  let ?fe = "round24 E" and ?fD = "round24 Dd" and ?ft = "round24 T"
  let ?p = "round24 (?fe / ?fD)"
  have fe: "E * a \<le> ?fe" "0 \<le> ?fe"
    using round24_rel(1) [OF E] round24_nonneg [OF E] by (simp_all add: a_def)
  have fD: "?fD \<le> Dd * c" "0 < ?fD"
    using round24_rel(2) [of Dd] round24_pos [OF Dd] Dd by (simp_all add: c_def)
  have q: "(E * a) / (Dd * c) \<le> ?fe / ?fD"
    using fe fD E a by (intro frac_le) simp_all
  have q0: "0 \<le> ?fe / ?fD" using fe(2) fD(2) by simp
  have p: "?fe / ?fD * a \<le> ?p" "0 \<le> ?p"
    using round24_rel(1) [OF q0] round24_nonneg [OF q0] by (simp_all add: a_def)
  have "(E * a) / (Dd * c) * a \<le> ?fe / ?fD * a"
    using q a by (intro mult_right_mono) simp_all
  then have p': "(E * a) / (Dd * c) * a \<le> ?p" using p(1) by (rule order_trans)
  have ft: "T * a \<le> ?ft" "0 \<le> ?ft"
    using round24_rel(1) [OF T] round24_nonneg [OF T] by (simp_all add: a_def)
  have y: "(T * a) * ((E * a) / (Dd * c) * a) \<le> ?ft * ?p"
    using ft p' p(2) T E Dd a c by (intro mult_mono) simp_all
  have y0: "0 \<le> ?ft * ?p" using ft(2) p(2) by simp
  have "T * E / Dd * (1 - 1 / 2 ^ 21) \<le> T * E / Dd * (a * a * a * a / c)"
    using num T E Dd by (intro mult_left_mono) simp_all
  also have "\<dots> = (T * a) * ((E * a) / (Dd * c) * a) * a"
    using c Dd by (simp add: field_simps)
  also have "\<dots> \<le> ?ft * ?p * a"
    using y a by (intro mult_right_mono) simp_all
  also have "\<dots> \<le> round24 (?ft * ?p)"
    using round24_rel(1) [OF y0] by (simp add: a_def)
  finally show ?thesis .
qed

subsection \<open>The tick below the duration\<close>

lemma float_of_ulong_nonzero: "w \<noteq> 0 \<Longrightarrow> float_of_ulong w \<noteq> 0"
proof -
  assume "w \<noteq> 0"
  then have "uint w \<noteq> 0" by (simp add: uint_0_iff)
  moreover have "0 \<le> uint w" by simp
  ultimately have "0 < uint w" by linarith
  then have "(0::rat) < of_int (uint w)" by (simp del: of_int_uint)
  then have "0 < float_of_ulong w" unfolding float_of_ulong_def by (rule round24_pos)
  then show ?thesis by simp
qed

text \<open>No call of \<open>updateSunrise\<close> divides by zero: the division is reached only below the duration.\<close>

lemma updateSunrise_no_division_fault: "updateSunrise now st \<noteq> Inl DivisionByZero"
proof (cases "sunriseDuration st \<le> now - sunriseStartTime st")
  case True
  then show ?thesis
    by (simp add: updateSunrise_def planet_at_def)
next
  case False
  then have "sunriseDuration st \<noteq> 0" by auto
  then have "float_of_ulong (sunriseDuration st) \<noteq> 0" by (rule float_of_ulong_nonzero)
  with False show ?thesis
    by (simp add: updateSunrise_def fdiv_def Let_def)
qed

lemma channel_bounds:
  fixes e D :: "32 word"
  assumes t: "0 \<le> t" "t \<le> 255" and eD: "e < D"
  defines "progress \<equiv> round24 (float_of_ulong e / float_of_ulong D)"
  shows "0 \<le> channel t progress" and "channel t progress \<le> t"
    and "\<bar>channel t progress - spec_channel t (uint e) (uint D)\<bar> \<le> 1"
proof -
  define T :: rat where "T = of_int t"
  define E :: rat where "E = of_int (uint e)"
  define Dd :: rat where "Dd = of_int (uint D)"
  let ?T = T and ?E = E and ?D = Dd
  let ?X = "?T * ?E / ?D"
  let ?z = "fmul (float_of_int t) progress"
  have T: "0 \<le> ?T" "?T \<le> 255" using t by (simp_all add: T_def)
  have E: "0 \<le> ?E" by (simp add: E_def del: of_int_uint)
  have "uint e < uint D" using eD by (simp add: word_less_def)
  then have ED: "?E < ?D" by (simp add: E_def Dd_def del: of_int_uint)
  with E have D: "0 < ?D" by linarith
  have z: "?z = round24 (round24 ?T * round24 (round24 ?E / round24 ?D))"
    by (simp add: fmul_def float_of_int_def float_of_ulong_def progress_def T_def E_def Dd_def
        del: of_int_uint)
  have up: "?z \<le> ?X * (1 + 1 / 2 ^ 21)" unfolding z using T(1) E D by (rule ramp_upper)
  have lo: "?X * (1 - 1 / 2 ^ 21) \<le> ?z" unfolding z using T(1) E D by (rule ramp_lower)
  have X0: "0 \<le> ?X" using T(1) E D by simp
  have "?E / ?D \<le> 1" using ED D by simp
  then have "?T * (?E / ?D) \<le> ?T * 1" using T(1) by (rule mult_left_mono)
  then have XT: "?X \<le> ?T" by simp
  have z0: "0 \<le> ?z"
  proof -
    have "0 \<le> ?X * (1 - 1 / 2 ^ 21)" using X0 by (intro mult_nonneg_nonneg) simp_all
    then show ?thesis using lo by linarith
  qed
  have ch: "channel t progress = \<lfloor>?z\<rfloor>" using z0 by (simp add: channel_def int_of_float_def)
  have "?X = of_int (t * uint e) / of_int (uint D)"
    by (simp add: T_def E_def Dd_def del: of_int_uint)
  then have sp: "spec_channel t (uint e) (uint D) = \<lfloor>?X\<rfloor>"
    by (simp only: spec_channel_def floor_divide_of_int_eq)
  have near1: "?z \<le> ?X + 255 / 2 ^ 21"
  proof -
    have "?X * (1 / 2 ^ 21) \<le> 255 * (1 / 2 ^ 21)"
      using XT T(2) by (intro mult_right_mono) simp_all
    then show ?thesis using up by (simp add: algebra_simps)
  qed
  have near2: "?X - 255 / 2 ^ 21 \<le> ?z"
  proof -
    have "?X * (1 / 2 ^ 21) \<le> 255 * (1 / 2 ^ 21)"
      using XT T(2) by (intro mult_right_mono) simp_all
    then show ?thesis using lo by (simp add: algebra_simps)
  qed
  show "0 \<le> channel t progress" using z0 by (simp add: ch)
  have "?z < ?T + 1" using near1 XT by simp
  then have "?z < of_int (t + 1)" by (simp add: T_def)
  then have "\<lfloor>?z\<rfloor> < t + 1" by (simp only: floor_less_iff)
  then show "channel t progress \<le> t" by (simp add: ch)
  have "?z < ?X + 1" "?X - 1 < ?z" using near1 near2 by simp_all
  then show "\<bar>channel t progress - spec_channel t (uint e) (uint D)\<bar> \<le> 1"
    unfolding ch sp by linarith
qed

subsection \<open>The loop keeps the state well-formed and never faults\<close>

lemma well_formed_setup: "well_formed setup_sketch"
  by (simp add: well_formed_def setup_sketch_def boot_def showPlanet_def displayPlanet1_def
      setColor_def)

lemma planets_in_range:
  assumes "0 \<le> i" and "i < 3"
  shows "0 \<le> r (planets ! nat i) \<and> r (planets ! nat i) \<le> 255 \<and>
         0 \<le> g (planets ! nat i) \<and> g (planets ! nat i) \<le> 255 \<and>
         0 \<le> b (planets ! nat i) \<and> b (planets ! nat i) \<le> 255"
proof -
  from assms have "i = 0 \<or> i = 1 \<or> i = 2" by presburger
  then show ?thesis by (elim disjE) (simp_all add: planets_def)
qed

lemma parseAndStartSunrise_well_formed:
  assumes "well_formed st"
  shows "\<exists>st'. parseAndStartSunrise command now st = Inr st' \<and> well_formed st'"
proof -
  from assms have i: "0 \<le> currentPlanet st" "currentPlanet st < 3"
    by (simp_all add: well_formed_def)
  show ?thesis
    using assms planets_in_range [OF i]
    by (simp add: parseAndStartSunrise_def Let_def planet_at_valid [OF i] setColor_def
        well_formed_def)
qed

lemma loop_serial_well_formed:
  assumes "well_formed st"
  shows "\<exists>st'. loop_serial e st = Inr st' \<and> well_formed st'"
  using assms parseAndStartSunrise_well_formed [OF assms]
  by (simp add: loop_serial_def Let_def split: option.splits)

lemma updateSunrise_well_formed:
  assumes "well_formed st"
  shows "\<exists>st'. updateSunrise now st = Inr st' \<and> well_formed st'"
proof (cases "sunriseDuration st \<le> now - sunriseStartTime st")
  case True
  from assms have i: "0 \<le> currentPlanet st" "currentPlanet st < 3"
    by (simp_all add: well_formed_def)
  show ?thesis
    using True assms
    by (simp add: updateSunrise_def planet_at_valid [OF i] setColor_def well_formed_def)
next
  case False
  then have "sunriseDuration st \<noteq> 0" by auto
  then have "float_of_ulong (sunriseDuration st) \<noteq> 0" by (rule float_of_ulong_nonzero)
  with False assms show ?thesis
    by (simp add: updateSunrise_def Let_def fdiv_def setColor_def well_formed_def)
qed

lemma loop_ir_well_formed:
  assumes "well_formed st"
  shows "well_formed (loop_ir st)"
  using assms
  by (auto simp: loop_ir_def ir_event_def Let_def showPlanet_def displayPlanet1_def
      displayPlanet2_def setColor_def well_formed_def split: option.splits)

lemma loop_well_formed:
  assumes "well_formed st"
  shows "\<exists>st'. loop e st = Inr st' \<and> well_formed st'"
proof -
  from loop_serial_well_formed [OF assms] obtain s1 where
    s1: "loop_serial e st = Inr s1" "well_formed s1" by blast
  have "\<exists>s2. loop_sunrise e s1 = Inr s2 \<and> well_formed s2"
    using s1(2) updateSunrise_well_formed [OF s1(2)] by (simp add: loop_sunrise_def)
  then obtain s2 where s2: "loop_sunrise e s1 = Inr s2" "well_formed s2" by blast
  from s1(1) s2 loop_ir_well_formed [OF s2(2)] show ?thesis by (simp add: loop_def)
qed

subsection \<open>The colour ramp\<close>

text \<open>
  C1 (as amended). A tick whose elapsed time is below the duration appends one triple to the
  writes of the LED and changes nothing else. With targets between 0 and 255, each channel of
  the triple is \<open>(int)(target * progress)\<close> for the one single-precision \<open>progress\<close>, the
  quotient of elapsed time and duration both converted to \<open>float\<close>; it lies between 0 and
  the target and differs from the specification's \<open>floor (target * e / D)\<close> by at most one.
\<close>

theorem tick_before_duration_interpolates:
  assumes "now - sunriseStartTime st < sunriseDuration st"
    and "0 \<le> targetR st \<and> targetR st \<le> 255"
    and "0 \<le> targetG st \<and> targetG st \<le> 255"
    and "0 \<le> targetB st \<and> targetB st \<le> 255"
  shows "\<exists>progress cr cg cb.
           fdiv (float_of_ulong (now - sunriseStartTime st)) (float_of_ulong (sunriseDuration st))
             = Inr progress \<and>
           cr = channel (targetR st) progress \<and>
           cg = channel (targetG st) progress \<and>
           cb = channel (targetB st) progress \<and>
           updateSunrise now st = Inr (st\<lparr>led_writes := led_writes st @ [(cr, cg, cb)]\<rparr>) \<and>
           0 \<le> cr \<and> cr \<le> targetR st \<and>
           0 \<le> cg \<and> cg \<le> targetG st \<and>
           0 \<le> cb \<and> cb \<le> targetB st \<and>
           \<bar>cr - spec_channel (targetR st) (uint (now - sunriseStartTime st))
                  (uint (sunriseDuration st))\<bar> \<le> 1 \<and>
           \<bar>cg - spec_channel (targetG st) (uint (now - sunriseStartTime st))
                  (uint (sunriseDuration st))\<bar> \<le> 1 \<and>
           \<bar>cb - spec_channel (targetB st) (uint (now - sunriseStartTime st))
                  (uint (sunriseDuration st))\<bar> \<le> 1"
proof -
  let ?e = "now - sunriseStartTime st" and ?D = "sunriseDuration st"
  let ?p = "round24 (float_of_ulong ?e / float_of_ulong ?D)"
  from assms(1) have "?D \<noteq> 0" by auto
  then have nz: "float_of_ulong ?D \<noteq> 0" by (rule float_of_ulong_nonzero)
  then have p: "fdiv (float_of_ulong ?e) (float_of_ulong ?D) = Inr ?p"
    by (simp add: fdiv_def)
  have "\<not> ?D \<le> ?e" using assms(1) by simp
  then have u: "updateSunrise now st =
      Inr (st\<lparr>led_writes := led_writes st @
        [(channel (targetR st) ?p, channel (targetG st) ?p, channel (targetB st) ?p)]\<rparr>)"
    using nz by (simp add: updateSunrise_def Let_def fdiv_def setColor_def)
  note R = channel_bounds [of "targetR st" ?e ?D, OF _ _ assms(1)]
  note G = channel_bounds [of "targetG st" ?e ?D, OF _ _ assms(1)]
  note B = channel_bounds [of "targetB st" ?e ?D, OF _ _ assms(1)]
  show ?thesis
    using p u R G B assms(2-4) by blast
qed

theorem tick_before_duration_interpolates_witness:
  "500 - sunriseStartTime earth_armed < sunriseDuration earth_armed \<and>
   updateSunrise 500 earth_armed =
     Inr (earth_armed\<lparr>led_writes := led_writes earth_armed @ [(115, 127, 0)]\<rparr>) \<and>
   (spec_channel 230 500 1000, spec_channel 255 500 1000, spec_channel 0 500 1000) = (115, 127, 0)"
proof -
  have h: "500 - sunriseStartTime earth_armed < sunriseDuration earth_armed"
    "0 \<le> targetR earth_armed \<and> targetR earth_armed \<le> 255"
    "0 \<le> targetG earth_armed \<and> targetG earth_armed \<le> 255"
    "0 \<le> targetB earth_armed \<and> targetB earth_armed \<le> 255"
    by (simp_all add: earth_armed_def)
  have f: "sunriseStartTime earth_armed = 0" "sunriseDuration earth_armed = 1000"
    "targetR earth_armed = 230" "targetG earth_armed = 255" "targetB earth_armed = 0"
    by (simp_all add: earth_armed_def)
  from tick_before_duration_interpolates [OF h] obtain progress cr cg cb where
    p: "fdiv (float_of_ulong (500 - sunriseStartTime earth_armed))
       (float_of_ulong (sunriseDuration earth_armed)) = Inr progress"
    and c: "cr = channel (targetR earth_armed) progress"
    "cg = channel (targetG earth_armed) progress"
    "cb = channel (targetB earth_armed) progress"
    and u: "updateSunrise 500 earth_armed =
       Inr (earth_armed\<lparr>led_writes := led_writes earth_armed @ [(cr, cg, cb)]\<rparr>)"
    by blast
  from p have "progress = 1 / 2" by (simp only: f diff_zero progress_half sum.inject)
  with c have "cr = 115" "cg = 127" "cb = 0" by (simp_all only: f channels_half)
  with u have "updateSunrise 500 earth_armed =
       Inr (earth_armed\<lparr>led_writes := led_writes earth_armed @ [(115, 127, 0)]\<rparr>)"
    by simp
  then show ?thesis using h(1) by (simp add: spec_channel_def)
qed

text \<open>
  C1 as it is written fails: the floor formula is not always what the single-precision
  computation truncates to. With the Moon preset (target red 100) and duration 100, the tick at
  elapsed time 53 writes red 52, since \<open>0.53\<close> rounds to a \<open>float\<close> below \<open>0.53\<close> and the product
  rounds to a \<open>float\<close> below 53; the formula gives 53.
\<close>

theorem tick_53_of_100_counterexample:
  "53 - sunriseStartTime moon_armed < sunriseDuration moon_armed \<and>
   updateSunrise 53 moon_armed =
     Inr (moon_armed\<lparr>led_writes := led_writes moon_armed @ [(52, 79, 135)]\<rparr>) \<and>
   spec_channel (targetR moon_armed) 53 100 = 53"
  by (simp add: updateSunrise_def moon_armed_def progress_53 channels_53 setColor_def
      spec_channel_def)

subsection \<open>Completion of the ramp\<close>

text \<open>
  C2. A tick whose elapsed time \<open>now - sunriseStartTime\<close> has reached the duration appends
  exactly the target colour to the writes of the LED and clears \<open>sunriseActive\<close>, however far
  beyond the duration the elapsed time is.
\<close>

theorem tick_at_or_after_duration_completes:
  assumes "0 \<le> currentPlanet st" and "currentPlanet st < 3"
    and "sunriseDuration st \<le> now - sunriseStartTime st"
  shows "\<exists>st'. updateSunrise now st = Inr st' \<and>
           led_writes st' = led_writes st @ [(targetR st, targetG st, targetB st)] \<and>
           \<not> sunriseActive st'"
  using assms by (simp add: updateSunrise_def planet_at_valid setColor_def)

theorem tick_at_or_after_duration_completes_witness:
  "0 \<le> currentPlanet earth_half \<and> currentPlanet earth_half < 3 \<and>
   sunriseDuration earth_half \<le> 4000 - sunriseStartTime earth_half \<and>
   (\<exists>st'. updateSunrise 4000 earth_half = Inr st' \<and>
      led_writes st' = led_writes earth_half @ [(230, 255, 0)] \<and> \<not> sunriseActive st')"
  using tick_at_or_after_duration_completes [of earth_half 4000]
  by (simp add: earth_half_def earth_armed_def)

lemma indexOf_SUNRISE_0: "indexOf ''SUNRISE 0'' CHR '' '' = 7"
  by (simp add: indexOf_def)

lemma toInt_0: "toInt ''0'' = 0"
  by (simp add: toInt_def isspace_def isdigit_def)

text \<open>
  C4. A command that arms the animation with duration 0 is completed by the first tick, at
  whatever time it comes: the tick returns a state (no division fault), the one with the
  target colour written and \<open>sunriseActive\<close> cleared. The comparison of elapsed time and
  duration comes before the division in \<open>updateSunrise\<close>.
\<close>

theorem zero_duration_completes_on_first_tick:
  assumes "0 \<le> currentPlanet st" and "currentPlanet st < 3"
    and "0 < indexOf command CHR '' ''"
    and "toInt (substring command (indexOf command CHR '' '' + 1)) = 0"
  shows "\<exists>s1 s2. parseAndStartSunrise command t0 st = Inr s1 \<and>
           sunriseActive s1 \<and> sunriseDuration s1 = 0 \<and>
           updateSunrise t1 s1 = Inr s2 \<and> \<not> sunriseActive s2 \<and>
           led_writes s2 = led_writes s1 @ [(targetR s1, targetG s1, targetB s1)]"
  using assms
  by (simp add: parseAndStartSunrise_def updateSunrise_def planet_at_valid setColor_def Let_def)

theorem zero_duration_completes_on_first_tick_witness:
  "0 < indexOf ''SUNRISE 0'' CHR '' '' \<and>
   toInt (substring ''SUNRISE 0'' (indexOf ''SUNRISE 0'' CHR '' '' + 1)) = 0 \<and>
   (\<exists>s1 s2. parseAndStartSunrise ''SUNRISE 0'' 5 moon_selected = Inr s1 \<and>
      sunriseActive s1 \<and> sunriseDuration s1 = 0 \<and>
      updateSunrise 5 s1 = Inr s2 \<and> \<not> sunriseActive s2 \<and>
      led_writes s2 = led_writes s1 @ [(targetR s1, targetG s1, targetB s1)])"
proof -
  have h: "0 \<le> currentPlanet moon_selected" "currentPlanet moon_selected < 3"
    "0 < indexOf ''SUNRISE 0'' CHR '' ''"
    "toInt (substring ''SUNRISE 0'' (indexOf ''SUNRISE 0'' CHR '' '' + 1)) = 0"
    by (simp_all add: moon_selected_def indexOf_SUNRISE_0 substring_def toInt_0)
  from zero_duration_completes_on_first_tick [OF h, of 5 5] h(3,4) show ?thesis by blast
qed

subsection \<open>The command parser\<close>

text \<open>
  C5. A command without a space makes \<open>parseAndStartSunrise\<close> report the invalid format and
  nothing else: the state it returns is the old one with that one line added to the serial
  output, so the active flag, the start time, the duration and the target are as before.
\<close>

theorem parse_without_separator_fails_atomically:
  assumes "CHR '' '' \<notin> set command"
  shows "parseAndStartSunrise command now st =
           Inr (st\<lparr>serial_log := serial_log st @ [InvalidFormat]\<rparr>)"
  using assms by (simp add: parseAndStartSunrise_def indexOf_absent)

theorem parse_without_separator_fails_atomically_witness:
  "CHR '' '' \<notin> set ''SUNRISE'' \<and>
   parseAndStartSunrise ''SUNRISE'' 7 earth_half =
     Inr (earth_half\<lparr>serial_log := serial_log earth_half @ [InvalidFormat]\<rparr>)"
  using parse_without_separator_fails_atomically [of "''SUNRISE''" 7 earth_half] by simp









text \<open>
  C9. A duration token that converts to a negative \<open>long\<close> \<open>k\<close> is stored in the unsigned
  32-bit \<open>sunriseDuration\<close> unchanged in its bits: the animation is armed with duration
  \<open>k mod 2^32\<close>, that is \<open>k + 2^32\<close>.
\<close>

theorem negative_duration_wraps_to_large:
  assumes "0 \<le> currentPlanet st" and "currentPlanet st < 3"
    and "0 < indexOf command CHR '' ''"
    and "sint (toInt (substring command (indexOf command CHR '' '' + 1))) = k"
    and "k < 0"
  shows "\<exists>st'. parseAndStartSunrise command now st = Inr st' \<and> sunriseActive st' \<and>
           uint (sunriseDuration st') = k mod 2 ^ 32 \<and>
           uint (sunriseDuration st') = k + 2 ^ 32"
proof -
  let ?w = "toInt (substring command (indexOf command CHR '' '' + 1))"
  have p: "parseAndStartSunrise command now st =
      Inr (setColor 0 0 0
             (st\<lparr>sunriseDuration := ?w,
                 targetR := r (planets ! nat (currentPlanet st)),
                 targetG := g (planets ! nat (currentPlanet st)),
                 targetB := b (planets ! nat (currentPlanet st)),
                 sunriseActive := True, sunriseStartTime := now\<rparr>)
           \<lparr>lcd := (''Sunrise: '' @ name (planets ! nat (currentPlanet st)), ''Waking up...''),
            serial_log := serial_log st @
              [SunriseStarted (name (planets ! nat (currentPlanet st))),
               TargetRGB (r (planets ! nat (currentPlanet st))) (g (planets ! nat (currentPlanet st)))
                 (b (planets ! nat (currentPlanet st))),
               DurationMs ?w]\<rparr>)"
    using assms(1-3) by (simp add: parseAndStartSunrise_def planet_at_valid Let_def)
  have m: "uint ?w = k mod 2 ^ 32"
    using assms(4) by (simp add: uint_sint take_bit_eq_mod)
  have "- (2 ^ 31) \<le> sint ?w" using sint_ge [of ?w] by simp
  with assms(4,5) have "- (2 ^ 31) \<le> k" "k < 0" by simp_all
  then have "0 \<le> k + 2 ^ 32" "k + 2 ^ 32 < 2 ^ 32" by simp_all
  then have "(k + 2 ^ 32) mod 2 ^ 32 = k + 2 ^ 32" by (rule mod_pos_pos_trivial)
  then have "k mod 2 ^ 32 = k + 2 ^ 32" by simp
  with m show ?thesis by (simp add: p setColor_def)
qed

lemma indexOf_SUNRISE_m1: "indexOf ''SUNRISE -1'' CHR '' '' = 7"
  by (simp add: indexOf_def)

lemma toInt_m1: "toInt ''-1'' = - 1"
  by (simp add: toInt_def isspace_def isdigit_def)

theorem negative_duration_wraps_to_large_witness:
  "0 < indexOf ''SUNRISE -1'' CHR '' '' \<and>
   sint (toInt (substring ''SUNRISE -1'' (indexOf ''SUNRISE -1'' CHR '' '' + 1))) = - 1 \<and>
   (\<exists>st'. parseAndStartSunrise ''SUNRISE -1'' 0 moon_selected = Inr st' \<and> sunriseActive st' \<and>
      uint (sunriseDuration st') = 4294967295)"
proof -
  have h: "0 \<le> currentPlanet moon_selected" "currentPlanet moon_selected < 3"
    "0 < indexOf ''SUNRISE -1'' CHR '' ''"
    "sint (toInt (substring ''SUNRISE -1'' (indexOf ''SUNRISE -1'' CHR '' '' + 1))) = - 1"
    "(- 1 :: int) < 0"
    by (simp_all add: moon_selected_def indexOf_SUNRISE_m1 substring_def toInt_m1)
  from negative_duration_wraps_to_large [OF h, of 0] h(3,4) show ?thesis by simp
qed

subsection \<open>Selecting a planet\<close>

text \<open>
  C6. From a selection \<open>i\<close> among 0, 1, 2, the UP button (code 9) moves to \<open>(i + 1) mod 3\<close> and
  the DOWN button (code 7) to \<open>(i - 1) mod 3\<close>; three UP presses return to \<open>i\<close>.
\<close>

theorem select_wraps_around:
  assumes "0 \<le> currentPlanet st" and "currentPlanet st < 3"
  shows "currentPlanet (ir_event 9 st) = (currentPlanet st + 1) mod 3 \<and>
         currentPlanet (ir_event 7 st) = (currentPlanet st - 1) mod 3 \<and>
         currentPlanet (ir_event 9 (ir_event 9 (ir_event 9 st))) = currentPlanet st"
proof -
  have up: "currentPlanet (ir_event 9 s) = (if 2 < currentPlanet s + 1 then 0 else currentPlanet s + 1)"
    for s
    by (simp add: ir_event_def Let_def showPlanet_def displayPlanet1_def displayPlanet2_def
        setColor_def)
  have down: "currentPlanet (ir_event 7 s) = (if currentPlanet s - 1 < 0 then 2 else currentPlanet s - 1)"
    for s
    by (simp add: ir_event_def Let_def showPlanet_def displayPlanet1_def displayPlanet2_def
        setColor_def)
  from assms have "currentPlanet st = 0 \<or> currentPlanet st = 1 \<or> currentPlanet st = 2"
    by presburger
  then show ?thesis by (elim disjE) (simp_all add: up down)
qed

theorem select_wraps_around_witness:
  "currentPlanet (ir_event 9 moon_selected) = 2 \<and>
   currentPlanet (ir_event 7 moon_selected) = 0 \<and>
   currentPlanet (ir_event 9 (ir_event 9 moon_selected)) = 0 \<and>
   currentPlanet (ir_event 7 (ir_event 7 moon_selected)) = 2 \<and>
   currentPlanet (ir_event 9 (ir_event 9 (ir_event 9 moon_selected))) = 1"
proof -
  have h: "0 \<le> currentPlanet moon_selected" "currentPlanet moon_selected < 3" 
    by (simp_all add: moon_selected_def)
  have c: "currentPlanet moon_selected = 1" by (simp add: moon_selected_def)
  note a = select_wraps_around [OF h]
  have b: "0 \<le> currentPlanet (ir_event 9 moon_selected)" "currentPlanet (ir_event 9 moon_selected) < 3"
    "0 \<le> currentPlanet (ir_event 7 moon_selected)" "currentPlanet (ir_event 7 moon_selected) < 3"
    using a by (simp_all add: c)
  note a2 = select_wraps_around [OF b(1,2)] select_wraps_around [OF b(3,4)]
  show ?thesis using a a2 by (simp add: c)
qed

text \<open>An idle iteration with a decoded command waiting runs exactly the IR branch.\<close>

lemma loop_ir_event:
  "rx_line e = None \<Longrightarrow> \<not> sunriseActive st \<Longrightarrow> ir_pending st = Some c \<Longrightarrow>
   loop e st = Inr (ir_event c st)"
  by (simp add: loop_def loop_serial_def loop_sunrise_def loop_ir_def)




subsection \<open>The event loop\<close>

lemma startsWith_SUNRISE_first_space:
  assumes "startsWith s ''SUNRISE''"
  shows "indexOf s CHR '' '' \<noteq> 0"
proof (cases s)
  case Nil
  with assms show ?thesis by (simp add: startsWith_def)
next
  case (Cons c cs)
  with assms have "c = CHR ''S''" by (simp add: startsWith_def)
  with Cons show ?thesis by (simp add: indexOf_def)
qed

lemma indexOf_pos_iff:
  "startsWith s ''SUNRISE'' \<Longrightarrow> 0 < indexOf s CHR '' '' \<longleftrightarrow> CHR '' '' \<in> set s"
  using startsWith_SUNRISE_first_space [of s] by (auto simp: indexOf_def)

text \<open>
  C10. When the trimmed line does not start with "SUNRISE", the serial step of the loop returns
  the state it was given, and the whole iteration is the one without a line. The serial step adds the invalid-format line as its only output
  exactly when a line was read whose trimmed text starts with "SUNRISE" and holds no space.
\<close>

theorem non_keyword_line_is_discarded:
  "(rx_line e = Some raw \<and> \<not> startsWith (trim raw) ''SUNRISE'' \<longrightarrow>
      loop_serial e st = Inr st \<and> loop e st = loop (e\<lparr>rx_line := None\<rparr>) st) \<and>
   ((\<exists>st'. loop_serial e st = Inr st' \<and> serial_log st' = serial_log st @ [InvalidFormat]) \<longleftrightarrow>
    (\<exists>line. rx_line e = Some line \<and> startsWith (trim line) ''SUNRISE'' \<and>
       CHR '' '' \<notin> set (trim line)))"
proof (intro conjI impI iffI)
  assume "rx_line e = Some raw \<and> \<not> startsWith (trim raw) ''SUNRISE''"
  then show "loop_serial e st = Inr st" by (simp add: loop_serial_def)
next
  assume "rx_line e = Some raw \<and> \<not> startsWith (trim raw) ''SUNRISE''"
  then show "loop e st = loop (e\<lparr>rx_line := None\<rparr>) st"
    by (simp add: loop_def loop_serial_def loop_sunrise_def)
next
  assume "\<exists>st'. loop_serial e st = Inr st' \<and> serial_log st' = serial_log st @ [InvalidFormat]"
  then obtain st' where a: "loop_serial e st = Inr st'"
    and l: "serial_log st' = serial_log st @ [InvalidFormat]" by blast
  show "\<exists>line. rx_line e = Some line \<and> startsWith (trim line) ''SUNRISE'' \<and>
       CHR '' '' \<notin> set (trim line)"
  proof (cases "rx_line e")
    case None
    with a l show ?thesis by (simp add: loop_serial_def)
  next
    case (Some line)
    show ?thesis
    proof (cases "startsWith (trim line) ''SUNRISE''")
      case False
      with Some a l show ?thesis by (simp add: loop_serial_def)
    next
      case True
      have "CHR '' '' \<notin> set (trim line)"
      proof
        assume "CHR '' '' \<in> set (trim line)"
        then have "0 < indexOf (trim line) CHR '' ''" using True by (simp add: indexOf_pos_iff)
        with Some True a l show False
          by (auto simp: loop_serial_def parseAndStartSunrise_def Let_def setColor_def
              split: sum.splits)
      qed
      with Some True show ?thesis by simp
    qed
  qed
next
  assume "\<exists>line. rx_line e = Some line \<and> startsWith (trim line) ''SUNRISE'' \<and>
       CHR '' '' \<notin> set (trim line)"
  then obtain line where "rx_line e = Some line" "startsWith (trim line) ''SUNRISE''"
    "CHR '' '' \<notin> set (trim line)" by blast
  then show "\<exists>st'. loop_serial e st = Inr st' \<and> serial_log st' = serial_log st @ [InvalidFormat]"
    by (simp add: loop_serial_def parseAndStartSunrise_def indexOf_absent)
qed

lemma trim_example: "trim ''  LIGHTS 50 '' = ''LIGHTS 50''"
  by (simp add: trim_def isspace_def)

theorem non_keyword_line_is_discarded_witness:
  "\<not> startsWith (trim ''  LIGHTS 50 '') ''SUNRISE'' \<and>
   loop_serial \<lparr>rx_line = Some ''  LIGHTS 50 '', t_arm = 3, t_tick = 4\<rparr> earth_half = Inr earth_half"
proof -
  have h: "\<not> startsWith (trim ''  LIGHTS 50 '') ''SUNRISE''"
    by (simp add: trim_example startsWith_def)
  from non_keyword_line_is_discarded
    [of "\<lparr>rx_line = Some ''  LIGHTS 50 '', t_arm = 3, t_tick = 4\<rparr>" "''  LIGHTS 50 ''" earth_half] h
  show ?thesis by simp
qed

lemma loop_serial_keeps_selection:
  "loop_serial e st = Inr s1 \<Longrightarrow>
   currentPlanet s1 = currentPlanet st \<and> ir_pending s1 = ir_pending st"
  by (auto simp: loop_serial_def parseAndStartSunrise_def Let_def setColor_def
      split: option.splits if_splits sum.splits)

lemma updateSunrise_running:
  assumes "now - sunriseStartTime st < sunriseDuration st"
  shows "\<exists>st'. updateSunrise now st = Inr st' \<and> sunriseActive st' = sunriseActive st \<and>
           currentPlanet st' = currentPlanet st \<and> ir_pending st' = ir_pending st"
proof -
  from assms have "sunriseDuration st \<noteq> 0" by auto
  then have "float_of_ulong (sunriseDuration st) \<noteq> 0" by (rule float_of_ulong_nonzero)
  moreover have "\<not> sunriseDuration st \<le> now - sunriseStartTime st" using assms by simp
  ultimately show ?thesis
    by (simp add: updateSunrise_def Let_def fdiv_def setColor_def)
qed

text \<open>
  C7 (as amended). In an iteration where the animation is active after the serial step and the
  tick finds the elapsed time below the duration, the animation stays active, the decoded
  remote command stays in the receiver and the selection is what it was.
\<close>

theorem remote_ignored_while_still_active:
  assumes "loop_serial e st = Inr s1" and "sunriseActive s1"
    and "t_tick e - sunriseStartTime s1 < sunriseDuration s1"
  shows "\<exists>s3. loop e st = Inr s3 \<and> sunriseActive s3 \<and>
           currentPlanet s3 = currentPlanet st \<and> ir_pending s3 = ir_pending st"
proof -
  from updateSunrise_running [OF assms(3)] obtain s2 where
    s2: "updateSunrise (t_tick e) s1 = Inr s2" "sunriseActive s2 = sunriseActive s1"
      "currentPlanet s2 = currentPlanet s1" "ir_pending s2 = ir_pending s1" by blast
  have "loop e st = Inr s2"
    using assms(1,2) s2(1,2) by (simp add: loop_def loop_sunrise_def loop_ir_def)
  with s2 assms(2) loop_serial_keeps_selection [OF assms(1)] show ?thesis by simp
qed

theorem remote_ignored_while_still_active_witness:
  "loop_serial \<lparr>rx_line = None, t_arm = 0, t_tick = 500\<rparr> (earth_armed\<lparr>ir_pending := Some 9\<rparr>)
     = Inr (earth_armed\<lparr>ir_pending := Some 9\<rparr>) \<and>
   sunriseActive (earth_armed\<lparr>ir_pending := Some 9\<rparr>) \<and>
   (\<exists>s3. loop \<lparr>rx_line = None, t_arm = 0, t_tick = 500\<rparr> (earth_armed\<lparr>ir_pending := Some 9\<rparr>)
            = Inr s3 \<and>
      sunriseActive s3 \<and> currentPlanet s3 = 0 \<and> ir_pending s3 = Some 9)"
proof -
  let ?e = "\<lparr>rx_line = None, t_arm = 0, t_tick = 500\<rparr>"
  let ?st = "earth_armed\<lparr>ir_pending := Some 9\<rparr>"
  have h: "loop_serial ?e ?st = Inr ?st" "sunriseActive ?st"
    "t_tick ?e - sunriseStartTime ?st < sunriseDuration ?st"
    by (simp_all add: loop_serial_def earth_armed_def)
  from remote_ignored_while_still_active [OF h] h(1,2) show ?thesis
    by (simp add: earth_armed_def)
qed

text \<open>
  C7 as it is written fails in the iteration whose tick completes the animation: the loop tests
  \<open>sunriseActive\<close> again after the tick, so the remote command waiting in the receiver is
  handled in that same iteration. From \<open>earth_half\<close> with the UP button waiting, the iteration
  at time 1000 completes the sunrise and then selects the Moon.
\<close>

theorem remote_handled_in_completing_iteration_counterexample:
  "sunriseActive (earth_half\<lparr>ir_pending := Some 9\<rparr>) \<and>
   currentPlanet (earth_half\<lparr>ir_pending := Some 9\<rparr>) = 0 \<and>
   loop \<lparr>rx_line = None, t_arm = 0, t_tick = 1000\<rparr> (earth_half\<lparr>ir_pending := Some 9\<rparr>)
     = Inr moon_after_completion \<and>
   currentPlanet moon_after_completion = 1 \<and>
   ir_pending moon_after_completion = None"
  by (simp add: loop_def loop_serial_def loop_sunrise_def loop_ir_def ir_event_def
      updateSunrise_def planet_at_def planets_def showPlanet_def displayPlanet2_def setColor_def
      earth_half_def earth_armed_def moon_after_completion_def)

end
